theory Spec2Isabelle
  imports Main "HOL-Library.Sublist"
begin

section \<open>Data model of \<open>backend/ai_generator.py\<close>\<close>

text \<open>
  The module talks to two collaborators: the model endpoint
  (\<open>client.messages.create\<close>) and the tool executor
  (\<open>tool_manager.execute_tool\<close>).  Both may return or raise.  An exception is
  a value carrying the text that \<open>str(e)\<close> yields.
\<close>

datatype error = Exception string

fun str :: "error \<Rightarrow> string" where
  "str (Exception m) = m"

text \<open>A tool input is the keyword dictionary of a tool-use block.\<close>

type_synonym tool_input = "(string \<times> string) list"

text \<open>
  A content block of a response.  \<open>block_text\<close> is \<open>None\<close> when the block has
  no attribute \<open>text\<close> (\<open>hasattr(block, 'text')\<close> is false).
\<close>

record content_block =
  block_type :: string
  block_text :: "string option"
  block_id :: string
  block_name :: string
  block_input :: tool_input

record response =
  stop_reason :: string
  content :: "content_block list"

text \<open>An entry \<open>{"type": "tool_result", "tool_use_id": ..., "content": ...}\<close>.\<close>

record tool_result =
  tool_use_id :: string
  result_content :: string

text \<open>
  A transcript entry \<open>{"role": ..., "content": ...}\<close>; its content is the query
  text, the content blocks of a response, or a batch of tool results.
\<close>

datatype message_content =
    TextContent string
  | BlockContent "content_block list"
  | ToolResults "tool_result list"

datatype message = Message (role: string) (message_content: message_content)

text \<open>Tool descriptors are passed through to the endpoint and never inspected.\<close>

type_synonym tool_descriptor = string

text \<open>
  The keyword arguments of one \<open>client.messages.create\<close> call: the three base
  parameters, the transcript, the system text, and the tool descriptors when the
  keys \<open>tools\<close> and \<open>tool_choice = {"type": "auto"}\<close> are present.
\<close>

record request =
  req_model :: string
  req_temperature :: int
  req_max_tokens :: int
  req_messages :: "message list"
  req_system :: string
  req_tools :: "tool_descriptor list option"

text \<open>
  The collaborators are functions of the number of calls already made to them and
  of the arguments of the call, so that every sequence of answers and failures is
  some collaborator.  The world logs every call together with its outcome.
\<close>

type_synonym client = "nat \<Rightarrow> request \<Rightarrow> error + response"
type_synonym tool_manager = "nat \<Rightarrow> string \<Rightarrow> tool_input \<Rightarrow> error + string"

record world =
  model_calls :: "(request \<times> (error + response)) list"
  tool_calls :: "((string \<times> tool_input) \<times> (error + string)) list"

definition messages_create :: "client \<Rightarrow> request \<Rightarrow> world \<Rightarrow> (error + response) \<times> world" where
  "messages_create c req w =
     (let out = c (length (model_calls w)) req
      in (out, w\<lparr>model_calls := model_calls w @ [(req, out)]\<rparr>))"

definition execute_tool :: "tool_manager \<Rightarrow> string \<Rightarrow> tool_input \<Rightarrow> world \<Rightarrow> (error + string) \<times> world" where
  "execute_tool t nm inp w =
     (let out = t (length (tool_calls w)) nm inp
      in (out, w\<lparr>tool_calls := tool_calls w @ [((nm, inp), out)]\<rparr>))"

subsection \<open>\<open>ToolRoundState\<close>\<close>

record tool_execution =
  te_round :: int
  te_tool_name :: string
  te_input :: tool_input
  te_result :: string

record ToolRoundState =
  current_round :: int
  max_rounds :: int
  tool_execution_history :: "tool_execution list"
  messages :: "message list"
  system_content :: string
  has_errors :: bool

definition can_continue :: "ToolRoundState \<Rightarrow> bool" where
  "can_continue s = (current_round s \<le> max_rounds s \<and> \<not> has_errors s)"

definition advance_round :: "ToolRoundState \<Rightarrow> ToolRoundState" where
  "advance_round s = s\<lparr>current_round := current_round s + 1\<rparr>"

definition add_tool_execution :: "ToolRoundState \<Rightarrow> string \<Rightarrow> tool_input \<Rightarrow> string \<Rightarrow> ToolRoundState" where
  "add_tool_execution s tool_name tool_inp tool_res =
     s\<lparr>tool_execution_history := tool_execution_history s @
          [\<lparr>te_round = current_round s, te_tool_name = tool_name,
            te_input = tool_inp, te_result = tool_res\<rparr>]\<rparr>"

subsection \<open>\<open>AIGenerator\<close>\<close>

text \<open>
  The generator holds its client and model name.  \<open>SYSTEM_PROMPT\<close> is the class
  attribute, a fixed text.
\<close>

record AIGenerator =
  client :: client
  model :: string
  SYSTEM_PROMPT :: string

definition base_params :: "AIGenerator \<Rightarrow> message list \<Rightarrow> string \<Rightarrow> request" where
  "base_params g msgs sys =
     \<lparr>req_model = model g, req_temperature = 0, req_max_tokens = 800,
      req_messages = msgs, req_system = sys, req_tools = None\<rparr>"

text \<open>Truthiness of an optional list and of an optional string.\<close>

definition truthy :: "'a list option \<Rightarrow> bool" where
  "truthy x = (case x of None \<Rightarrow> False | Some xs \<Rightarrow> xs \<noteq> [])"

definition build_system_content :: "AIGenerator \<Rightarrow> string option \<Rightarrow> string" where
  "build_system_content g conversation_history =
     (if truthy conversation_history
      then SYSTEM_PROMPT g @ [CHR 0x0A, CHR 0x0A] @ ''Previous conversation:'' @ [CHR 0x0A]
             @ the conversation_history
      else SYSTEM_PROMPT g)"

definition has_tool_calls :: "response option \<Rightarrow> bool" where
  "has_tool_calls resp =
     (case resp of
        None \<Rightarrow> False
      | Some r \<Rightarrow> if content r = [] then False
                  else list_ex (\<lambda>b. block_type b = ''tool_use'') (content r))"

fun first_text :: "content_block list \<Rightarrow> string option" where
  "first_text [] = None"
| "first_text (b # bs) = (case block_text b of Some t \<Rightarrow> Some t | None \<Rightarrow> first_text bs)"

definition extract_text_response :: "response option \<Rightarrow> string" where
  "extract_text_response resp =
     (case resp of
        None \<Rightarrow> ''Error: No valid response content received from AI.''
      | Some r \<Rightarrow>
          (case first_text (content r) of
             Some t \<Rightarrow> t
           | None \<Rightarrow> ''Error: No valid response content received from AI.''))"

text \<open>
  The \<open>for\<close> loop of \<open>_execute_tool_round\<close> over the content blocks.  A failing
  tool execution sets \<open>has_errors\<close> and leaves the loop (\<open>break\<close>).
\<close>

fun run_tool_calls ::
  "tool_manager \<Rightarrow> content_block list \<Rightarrow> tool_result list \<Rightarrow> ToolRoundState \<Rightarrow> world
     \<Rightarrow> tool_result list \<times> ToolRoundState \<times> world" where
  "run_tool_calls t [] results rs w = (results, rs, w)"
| "run_tool_calls t (b # bs) results rs w =
     (if block_type b = ''tool_use'' then
        (case execute_tool t (block_name b) (block_input b) w of
           (Inl e, w') \<Rightarrow> (results, rs\<lparr>has_errors := True\<rparr>, w')
         | (Inr tool_res, w') \<Rightarrow>
             run_tool_calls t bs
               (results @ [\<lparr>tool_use_id = block_id b, result_content = tool_res\<rparr>])
               (add_tool_execution rs (block_name b) (block_input b) tool_res) w')
      else run_tool_calls t bs results rs w)"

text \<open>
  \<open>_execute_tool_round\<close>.  \<open>round_api_params\<close> is the dictionary
  \<open>api_params\<close> it builds first; the transcript in it is a copy.  The
  result tells whether the model call raised; the round state is returned as the
  call left it.
\<close>

definition round_api_params :: "AIGenerator \<Rightarrow> ToolRoundState \<Rightarrow> tool_descriptor list option \<Rightarrow> request" where
  "round_api_params g rs tools =
     (base_params g (messages rs) (system_content rs))
       \<lparr>req_tools := (if truthy tools \<and> current_round rs \<le> max_rounds rs
                      then tools else None)\<rparr>"

definition execute_tool_round ::
  "AIGenerator \<Rightarrow> ToolRoundState \<Rightarrow> tool_descriptor list option \<Rightarrow> tool_manager option \<Rightarrow> world
     \<Rightarrow> (error + response option) \<times> ToolRoundState \<times> world" where
  "execute_tool_round g rs tools tm w =
     (let api_params = round_api_params g rs tools
      in case messages_create (client g) api_params w of
           (Inl e, w1) \<Rightarrow> (Inl e, rs, w1)
         | (Inr resp, w1) \<Rightarrow>
             (case tm of
                Some t \<Rightarrow>
                  if stop_reason resp = ''tool_use'' then
                    (let rs1 = rs\<lparr>messages := messages rs @
                                     [Message ''assistant'' (BlockContent (content resp))]\<rparr>
                     in case run_tool_calls t (content resp) [] rs1 w1 of
                          (results, rs2, w2) \<Rightarrow>
                            (Inr (Some resp),
                             (if results \<noteq> []
                              then rs2\<lparr>messages := messages rs2 @
                                          [Message ''user'' (ToolResults results)]\<rparr>
                              else rs2),
                             w2))
                  else (Inr (Some resp), rs, w1)
              | None \<Rightarrow> (Inr (Some resp), rs, w1)))"

definition get_final_response :: "AIGenerator \<Rightarrow> ToolRoundState \<Rightarrow> world \<Rightarrow> string \<times> world" where
  "get_final_response g rs w =
     (case messages_create (client g) (base_params g (messages rs) (system_content rs)) w of
        (Inr final_response, w1) \<Rightarrow> (extract_text_response (Some final_response), w1)
      | (Inl e, w1) \<Rightarrow> (''Error generating final response: '' @ str e, w1))"

text \<open>
  How the \<open>while\<close> loop of \<open>generate_response_with_sequential_tools\<close> is left:
  by the \<open>return\<close> inside it, or by falling through with \<open>last_response\<close>.
\<close>

datatype loop_exit = Returned string | FellThrough "response option"

lemma run_tool_calls_rounds:
  "run_tool_calls t bs results rs w = (results', rs', w') \<Longrightarrow>
     current_round rs' = current_round rs \<and> max_rounds rs' = max_rounds rs \<and>
     system_content rs' = system_content rs \<and> messages rs' = messages rs"
proof (induction bs arbitrary: results rs w)
  case Nil
  then show ?case by simp
next
  case (Cons b bs)
  show ?case
  proof (cases "block_type b = ''tool_use''")
    case False
    with Cons show ?thesis by simp
  next
    case True
    obtain out w1 where ex: "execute_tool t (block_name b) (block_input b) w = (out, w1)"
      by (cases "execute_tool t (block_name b) (block_input b) w")
    show ?thesis
    proof (cases out)
      case (Inl e)
      with Cons.prems True ex show ?thesis by auto
    next
      case (Inr tool_res)
      with Cons.prems True ex
      have "run_tool_calls t bs
              (results @ [\<lparr>tool_use_id = block_id b, result_content = tool_res\<rparr>])
              (add_tool_execution rs (block_name b) (block_input b) tool_res) w1
            = (results', rs', w')"
        by simp
      from Cons.IH [OF this] show ?thesis
        by (simp add: add_tool_execution_def)
    qed
  qed
qed

lemma execute_tool_round_rounds:
  assumes "execute_tool_round g rs tools tm w = (out, rs', w')"
  shows "current_round rs' = current_round rs \<and> max_rounds rs' = max_rounds rs \<and>
         system_content rs' = system_content rs"
  using assms
  by (auto simp: execute_tool_round_def Let_def
           split: prod.splits sum.splits option.splits if_splits
           dest!: run_tool_calls_rounds)

text \<open>
  The \<open>while round_state.can_continue()\<close> loop.  An exception of the model
  call leaves the loop as \<open>Inl\<close>; the handler is in
  \<open>generate_response_with_sequential_tools\<close>.
\<close>

function round_loop ::
  "AIGenerator \<Rightarrow> tool_descriptor list option \<Rightarrow> tool_manager option \<Rightarrow> response option
     \<Rightarrow> ToolRoundState \<Rightarrow> world \<Rightarrow> (error + loop_exit) \<times> ToolRoundState \<times> world" where
  "round_loop g tools tm last_response rs w =
     (if can_continue rs then
        (case execute_tool_round g rs tools tm w of
           (Inl e, rs1, w1) \<Rightarrow> (Inl e, rs1, w1)
         | (Inr resp, rs1, w1) \<Rightarrow>
             if resp \<noteq> None \<and> has_tool_calls resp then
               round_loop g tools tm resp (advance_round rs1) w1
             else if resp \<noteq> None \<and> \<not> has_tool_calls resp then
               (Inr (Returned (extract_text_response resp)), rs1, w1)
             else (Inr (FellThrough resp), rs1\<lparr>has_errors := True\<rparr>, w1))
      else (Inr (FellThrough last_response), rs, w))"
  by pat_completeness auto
termination
proof (relation "measure (\<lambda>(g, tools, tm, lr, rs, w). nat (max_rounds rs + 1 - current_round rs))",
       goal_cases)
  case 1
  show ?case by simp
next
  case 2
  then show ?case
    by (auto simp: can_continue_def advance_round_def
             dest!: execute_tool_round_rounds [OF sym])
qed

declare round_loop.simps [simp del]

text \<open>
  \<open>generate_response_with_sequential_tools\<close>.  The result is \<open>Inr\<close> of the
  returned string, or \<open>Inl\<close> of an exception that leaves the method; the
  final round state and the world are returned with it.
\<close>

definition initial_round_state :: "AIGenerator \<Rightarrow> string \<Rightarrow> string option \<Rightarrow> int \<Rightarrow> ToolRoundState" where
  "initial_round_state g query conversation_history mr =
     \<lparr>current_round = 1, max_rounds = mr, tool_execution_history = [],
      messages = [Message ''user'' (TextContent query)],
      system_content = build_system_content g conversation_history,
      has_errors = False\<rparr>"

definition generate_response_with_sequential_tools ::
  "AIGenerator \<Rightarrow> string \<Rightarrow> string option \<Rightarrow> tool_descriptor list option \<Rightarrow> tool_manager option
     \<Rightarrow> int \<Rightarrow> world \<Rightarrow> (error + string) \<times> ToolRoundState \<times> world" where
  "generate_response_with_sequential_tools g query conversation_history tools tm mr w =
     (case round_loop g tools tm None (initial_round_state g query conversation_history mr) w of
        (Inl e, rs1, w1) \<Rightarrow>
          (Inr (''Error during sequential tool execution: '' @ str e), rs1, w1)
      | (Inr (Returned s), rs1, w1) \<Rightarrow> (Inr s, rs1, w1)
      | (Inr (FellThrough last_response), rs1, w1) \<Rightarrow>
          if last_response \<noteq> None \<and> has_tool_calls last_response then
            (case get_final_response g rs1 w1 of (s, w2) \<Rightarrow> (Inr s, rs1, w2))
          else
            (Inr (if last_response \<noteq> None then extract_text_response last_response
                  else ''Error: No response received''), rs1, w1))"

subsection \<open>The single-call path\<close>





section \<open>Observing a run\<close>

text \<open>
  The calls a run issues are the entries it adds to the logs of the world.
\<close>

definition new_model_calls :: "world \<Rightarrow> world \<Rightarrow> (request \<times> (error + response)) list" where
  "new_model_calls w w' = drop (length (model_calls w)) (model_calls w')"

definition new_tool_calls :: "world \<Rightarrow> world \<Rightarrow> ((string \<times> tool_input) \<times> (error + string)) list" where
  "new_tool_calls w w' = drop (length (tool_calls w)) (tool_calls w')"

text \<open>A logged call raised when its outcome is an exception.\<close>

definition raised :: "'a \<times> (error + 'b) \<Rightarrow> bool" where
  "raised x = isl (snd x)"

text \<open>
  The tool-use requests of a response, the executor call each one stands for, and the
  tool-result entry built from a request and its logged call.
\<close>

definition tool_uses :: "content_block list \<Rightarrow> content_block list" where
  "tool_uses bs = filter (\<lambda>b. block_type b = ''tool_use'') bs"

definition call_of :: "content_block \<Rightarrow> string \<times> tool_input" where
  "call_of b = (block_name b, block_input b)"

definition result_entry :: "content_block \<Rightarrow> (string \<times> tool_input) \<times> (error + string) \<Rightarrow> tool_result" where
  "result_entry b x = \<lparr>tool_use_id = block_id b, result_content = projr (snd x)\<rparr>"

text \<open>
  The turns a round appends when it dispatches the tool-use requests of response
  \<open>r\<close> and the executor calls \<open>tnew\<close> were made: the assistant turn,
  then the batch of results as one user turn when the batch is not empty.
\<close>

definition appended_turns :: "response \<Rightarrow> ((string \<times> tool_input) \<times> (error + string)) list \<Rightarrow> message list" where
  "appended_turns r tnew =
     Message ''assistant'' (BlockContent (content r)) #
     (let results = map2 result_entry (tool_uses (content r)) (filter (\<lambda>x. \<not> raised x) tnew)
      in if results = [] then [] else [Message ''user'' (ToolResults results)])"


definition final_text :: "error + response \<Rightarrow> string" where
  "final_text mo =
     (case mo of
        Inr r \<Rightarrow> extract_text_response (Some r)
      | Inl e \<Rightarrow> ''Error generating final response: '' @ str e)"

text \<open>
  Invariants of the loop, as relations between its start and its result: what the
  model calls made look like and how the loop was left; what the tool calls made look
  like; how the transcript and the requests are related.
\<close>

definition exit_ok ::
  "error + loop_exit \<Rightarrow> response option \<Rightarrow> ToolRoundState \<Rightarrow> ToolRoundState
     \<Rightarrow> (request \<times> (error + response)) list \<Rightarrow> bool" where
  "exit_ok out lr rs rs' mnew =
     (case out of
        Inl e \<Rightarrow> mnew \<noteq> [] \<and> snd (last mnew) = Inl e
      | Inr (Returned s) \<Rightarrow>
          mnew \<noteq> [] \<and>
          (\<exists>r. snd (last mnew) = Inr r \<and> \<not> has_tool_calls (Some r) \<and>
               s = extract_text_response (Some r))
      | Inr (FellThrough l) \<Rightarrow>
          \<not> can_continue rs' \<and>
          (if mnew = [] then l = lr \<and> rs' = rs
           else \<exists>r. snd (last mnew) = Inr r \<and> l = Some r \<and> has_tool_calls (Some r)))"

definition trace_ok ::
  "response option \<Rightarrow> ToolRoundState \<Rightarrow> world
     \<Rightarrow> (error + loop_exit) \<times> ToolRoundState \<times> world \<Rightarrow> bool" where
  "trace_ok lr rs w res =
     (case res of (out, rs', w') \<Rightarrow>
        \<exists>mnew. model_calls w' = model_calls w @ mnew \<and>
          length mnew \<le> nat (max_rounds rs + 1 - current_round rs) \<and>
          max_rounds rs' = max_rounds rs \<and>
          (\<forall>x\<in>set (butlast mnew). \<exists>r. snd x = Inr r \<and> has_tool_calls (Some r)) \<and>
          exit_ok out lr rs rs' mnew)"

definition tools_ok ::
  "response option \<Rightarrow> ToolRoundState \<Rightarrow> world
     \<Rightarrow> (error + loop_exit) \<times> ToolRoundState \<times> world \<Rightarrow> bool" where
  "tools_ok lr rs w res =
     (case res of (out, rs', w') \<Rightarrow>
        \<exists>tnew. tool_calls w' = tool_calls w @ tnew \<and>
          (\<forall>x\<in>set (butlast tnew). \<not> raised x) \<and>
          ((\<exists>x\<in>set tnew. raised x) \<longrightarrow>
             has_errors rs' \<and> (\<exists>r. out = Inr (FellThrough (Some r)) \<and> has_tool_calls (Some r))) \<and>
          (\<not> can_continue rs \<longrightarrow> tnew = [] \<and> out = Inr (FellThrough lr) \<and> rs' = rs))"


text \<open>
  The four ways a call of \<open>generate_response_with_sequential_tools\<close> ends, in
  terms of the model calls of the loop and of the final call.
\<close>

definition seq_outcome ::
  "AIGenerator \<Rightarrow> world \<Rightarrow> error + string \<Rightarrow> ToolRoundState
     \<Rightarrow> (request \<times> (error + response)) list \<Rightarrow> (request \<times> (error + response)) list \<Rightarrow> bool" where
  "seq_outcome g w res rs' mloop mfin =
     ((mfin = [] \<and> mloop = [] \<and> res = Inr ''Error: No response received'') \<or>
      (mfin = [] \<and> mloop \<noteq> [] \<and>
         (\<exists>e. snd (last mloop) = Inl e \<and>
              res = Inr (''Error during sequential tool execution: '' @ str e))) \<or>
      (mfin = [] \<and> mloop \<noteq> [] \<and>
         (\<exists>r. snd (last mloop) = Inr r \<and> \<not> has_tool_calls (Some r) \<and>
              res = Inr (extract_text_response (Some r)))) \<or>
      (mloop \<noteq> [] \<and> (\<exists>r. snd (last mloop) = Inr r \<and> has_tool_calls (Some r)) \<and>
         \<not> can_continue rs' \<and>
         (\<exists>mo. mo = client g (length (model_calls w) + length mloop)
                       (base_params g (messages rs') (system_content rs')) \<and>
               mfin = [(base_params g (messages rs') (system_content rs'), mo)] \<and>
               res = Inr (final_text mo))))"




section \<open>Concrete collaborators\<close>

text \<open>
  Scripted endpoints and executors, as the tests of the repository use them: an
  endpoint that asks for a search while tools are offered and answers otherwise, an
  endpoint that is down, one that answers once and then times out, an executor that
  answers and one that fails.
\<close>

definition empty_world :: world where
  "empty_world = \<lparr>model_calls = [], tool_calls = []\<rparr>"

definition text_block :: "string \<Rightarrow> content_block" where
  "text_block s = \<lparr>block_type = ''text'', block_text = Some s, block_id = '''',
                  block_name = '''', block_input = []\<rparr>"

definition tool_use_block :: "string \<Rightarrow> string \<Rightarrow> tool_input \<Rightarrow> content_block" where
  "tool_use_block i n inp = \<lparr>block_type = ''tool_use'', block_text = None, block_id = i,
                  block_name = n, block_input = inp\<rparr>"

definition searching_client :: client where
  "searching_client n req =
     (if req_tools req = None
      then Inr \<lparr>stop_reason = ''end_turn'', content = [text_block ''Final answer'']\<rparr>
      else Inr \<lparr>stop_reason = ''tool_use'',
                content = [text_block ''Let me look that up'',
                           tool_use_block ''t1'' ''search'' [(''query'', ''x'')]]\<rparr>)"

definition searching_generator :: AIGenerator where
  "searching_generator = \<lparr>client = searching_client, model = ''m'', SYSTEM_PROMPT = ''sys''\<rparr>"

definition echo_tool :: tool_manager where
  "echo_tool n nm inp = Inr ''found''"

definition failing_tool :: tool_manager where
  "failing_tool n nm inp = Inl (Exception ''Tool failed'')"

definition down_client :: client where
  "down_client n req = Inl (Exception ''connection refused'')"

definition down_generator :: AIGenerator where
  "down_generator = \<lparr>client = down_client, model = ''m'', SYSTEM_PROMPT = ''sys''\<rparr>"

definition mute_client :: client where
  "mute_client n req = Inr \<lparr>stop_reason = ''end_turn'', content = []\<rparr>"

definition mute_generator :: AIGenerator where
  "mute_generator = \<lparr>client = mute_client, model = ''m'', SYSTEM_PROMPT = ''sys''\<rparr>"

definition blank_client :: client where
  "blank_client n req = Inr \<lparr>stop_reason = ''end_turn'', content = [text_block '''']\<rparr>"

definition blank_generator :: AIGenerator where
  "blank_generator = \<lparr>client = blank_client, model = ''m'', SYSTEM_PROMPT = ''sys''\<rparr>"

definition second_fails :: tool_manager where
  "second_fails n nm inp = (if n = 1 then Inl (Exception ''Tool failed'') else Inr ''found'')"

definition three_searches :: response where
  "three_searches =
     \<lparr>stop_reason = ''tool_use'',
      content = [tool_use_block ''t1'' ''search'' [(''query'', ''a'')],
                 tool_use_block ''t2'' ''search'' [(''query'', ''b'')],
                 tool_use_block ''t3'' ''search'' [(''query'', ''c'')]]\<rparr>"

definition three_searches_generator :: AIGenerator where
  "three_searches_generator =
     \<lparr>client = (\<lambda>n req. Inr three_searches), model = ''m'', SYSTEM_PROMPT = ''sys''\<rparr>"

definition flaky_client :: client where
  "flaky_client n req =
     (if n = 0
      then Inr \<lparr>stop_reason = ''tool_use'',
                content = [tool_use_block ''t1'' ''search'' [(''query'', ''x'')]]\<rparr>
      else Inl (Exception ''timeout''))"

definition flaky_generator :: AIGenerator where
  "flaky_generator = \<lparr>client = flaky_client, model = ''m'', SYSTEM_PROMPT = ''sys''\<rparr>"

section \<open>Lemmas about the rounds and the loop\<close>

lemma execute_tool_eq:
  "execute_tool t nm inp w =
     (t (length (tool_calls w)) nm inp,
      w\<lparr>tool_calls := tool_calls w @ [((nm, inp), t (length (tool_calls w)) nm inp)]\<rparr>)"
  by (simp add: execute_tool_def Let_def)

lemma run_tool_calls_trace:
  "run_tool_calls t bs results rs w = (results', rs', w') \<Longrightarrow>
     model_calls w' = model_calls w \<and>
     (\<exists>tnew. tool_calls w' = tool_calls w @ tnew \<and>
        map fst tnew = map call_of (take (length tnew) (tool_uses bs)) \<and>
        (\<forall>x\<in>set (butlast tnew). \<not> raised x) \<and>
        has_errors rs' = (has_errors rs \<or> (\<exists>x\<in>set tnew. raised x)) \<and>
        results' = results @ map2 result_entry (tool_uses bs) (filter (\<lambda>x. \<not> raised x) tnew) \<and>
        ((\<forall>x\<in>set tnew. \<not> raised x) \<longrightarrow> length tnew = length (tool_uses bs)))"
proof (induction bs arbitrary: results rs w)
  case Nil
  then show ?case by (simp add: tool_uses_def)
next
  case (Cons b bs)
  show ?case
  proof (cases "block_type b = ''tool_use''")
    case False
    with Cons.prems have "run_tool_calls t bs results rs w = (results', rs', w')" by simp
    from Cons.IH [OF this] False show ?thesis by (simp add: tool_uses_def)
  next
    case True
    let ?out = "t (length (tool_calls w)) (block_name b) (block_input b)"
    let ?x = "((block_name b, block_input b), ?out)"
    let ?w1 = "w\<lparr>tool_calls := tool_calls w @ [?x]\<rparr>"
    show ?thesis
    proof (cases ?out)
      case (Inl e)
      with Cons.prems True have eq: "results' = results" "rs' = rs\<lparr>has_errors := True\<rparr>" "w' = ?w1"
        by (simp_all add: execute_tool_eq)
      have "tool_calls w' = tool_calls w @ [?x]" using eq by simp
      moreover have "raised ?x" using Inl by (simp add: raised_def)
      ultimately show ?thesis using eq True
        by (auto simp: tool_uses_def call_of_def intro!: exI [of _ "[?x]"])
    next
      case (Inr tool_res)
      with Cons.prems True
      have "run_tool_calls t bs
              (results @ [\<lparr>tool_use_id = block_id b, result_content = tool_res\<rparr>])
              (add_tool_execution rs (block_name b) (block_input b) tool_res) ?w1
            = (results', rs', w')"
        by (simp add: execute_tool_eq)
      from Cons.IH [OF this] obtain tnew where
        mc: "model_calls w' = model_calls w" and
        tc: "tool_calls w' = tool_calls w @ ?x # tnew" and
        fs: "map fst tnew = map call_of (take (length tnew) (tool_uses bs))" and
        bl: "\<forall>x\<in>set (butlast tnew). \<not> raised x" and
        he: "has_errors rs' = (has_errors rs \<or> (\<exists>x\<in>set tnew. raised x))" and
        re: "results' = (results @ [\<lparr>tool_use_id = block_id b, result_content = tool_res\<rparr>])
               @ map2 result_entry (tool_uses bs) (filter (\<lambda>x. \<not> raised x) tnew)" and
        al: "(\<forall>x\<in>set tnew. \<not> raised x) \<longrightarrow> length tnew = length (tool_uses bs)"
        by (auto simp: add_tool_execution_def)
      have nr: "\<not> raised ?x" using Inr by (simp add: raised_def)
      have tu: "tool_uses (b # bs) = b # tool_uses bs" using True by (simp add: tool_uses_def)
      have "map fst (?x # tnew) = map call_of (take (length (?x # tnew)) (tool_uses (b # bs)))"
        using fs tu by (simp add: call_of_def)
      moreover have "\<forall>x\<in>set (butlast (?x # tnew)). \<not> raised x"
        using bl nr by (auto split: if_splits)
      moreover have "has_errors rs' = (has_errors rs \<or> (\<exists>x\<in>set (?x # tnew). raised x))"
        using he nr by auto
      moreover have "results' = results @ map2 result_entry (tool_uses (b # bs))
                        (filter (\<lambda>x. \<not> raised x) (?x # tnew))"
        using re nr tu Inr by (simp add: result_entry_def)
      moreover have "(\<forall>x\<in>set (?x # tnew). \<not> raised x) \<longrightarrow>
                       length (?x # tnew) = length (tool_uses (b # bs))"
        using al tu by simp
      ultimately show ?thesis using mc tc by blast
    qed
  qed
qed

lemma messages_create_eq:
  "messages_create c req w =
     (c (length (model_calls w)) req,
      w\<lparr>model_calls := model_calls w @ [(req, c (length (model_calls w)) req)]\<rparr>)"
  by (simp add: messages_create_def Let_def)

lemma has_tool_calls_tool_uses:
  "has_tool_calls (Some r) = (tool_uses (content r) \<noteq> [])"
  by (auto simp: has_tool_calls_def tool_uses_def list_ex_iff filter_empty_conv)

lemma execute_tool_round_spec:
  assumes "execute_tool_round g rs tools tm w = (out, rs', w')"
  shows "\<exists>mo tnew.
           mo = client g (length (model_calls w)) (round_api_params g rs tools) \<and>
           model_calls w' = model_calls w @ [(round_api_params g rs tools, mo)] \<and>
           tool_calls w' = tool_calls w @ tnew \<and>
           out = (case mo of Inl e \<Rightarrow> Inl e | Inr r \<Rightarrow> Inr (Some r)) \<and>
           has_errors rs' = (has_errors rs \<or> (\<exists>x\<in>set tnew. raised x)) \<and>
           (\<forall>x\<in>set (butlast tnew). \<not> raised x) \<and>
           (tnew \<noteq> [] \<longrightarrow>
              (\<exists>r. mo = Inr r \<and> has_tool_calls (Some r) \<and> stop_reason r = ''tool_use'') \<and>
              tm \<noteq> None) \<and>
           (\<forall>r. mo = Inr r \<longrightarrow>
                map fst tnew = map call_of (take (length tnew) (tool_uses (content r))) \<and>
                messages rs' = messages rs @
                  (if stop_reason r = ''tool_use'' \<and> tm \<noteq> None then appended_turns r tnew else [])) \<and>
           (\<forall>e. mo = Inl e \<longrightarrow> rs' = rs \<and> tnew = [])"
proof -
  let ?req = "round_api_params g rs tools"
  let ?mo = "client g (length (model_calls w)) ?req"
  let ?w1 = "w\<lparr>model_calls := model_calls w @ [(?req, ?mo)]\<rparr>"
  show ?thesis
  proof (cases ?mo)
    case (Inl e)
    with assms have "out = Inl e" "rs' = rs" "w' = ?w1"
      by (auto simp: execute_tool_round_def messages_create_eq Let_def)
    with Inl show ?thesis by simp
  next
    case (Inr r)
    show ?thesis
    proof (cases "stop_reason r = ''tool_use'' \<and> tm \<noteq> None")
      case False
      with assms Inr have "out = Inr (Some r)" "rs' = rs" "w' = ?w1"
        by (auto simp: execute_tool_round_def messages_create_eq Let_def split: option.splits)
      with Inr False show ?thesis by auto
    next
      case True
      then obtain t where tm: "tm = Some t" by auto
      let ?rs1 = "rs\<lparr>messages := messages rs @ [Message ''assistant'' (BlockContent (content r))]\<rparr>"
      obtain results rs2 w2 where
        run: "run_tool_calls t (content r) [] ?rs1 ?w1 = (results, rs2, w2)"
        by (cases "run_tool_calls t (content r) [] ?rs1 ?w1") auto
      from run_tool_calls_trace [OF run] obtain tnew where
        mc: "model_calls w2 = model_calls ?w1" and
        tc: "tool_calls w2 = tool_calls w @ tnew" and
        fs: "map fst tnew = map call_of (take (length tnew) (tool_uses (content r)))" and
        bl: "\<forall>x\<in>set (butlast tnew). \<not> raised x" and
        he: "has_errors rs2 = (has_errors rs \<or> (\<exists>x\<in>set tnew. raised x))" and
        re: "results = map2 result_entry (tool_uses (content r)) (filter (\<lambda>x. \<not> raised x) tnew)"
        by auto
      from run_tool_calls_rounds [OF run] have ms: "messages rs2 = messages ?rs1" by simp
      from assms Inr True tm run
      have out: "out = Inr (Some r)" and w': "w' = w2"
        and rs': "rs' = (if results \<noteq> []
                         then rs2\<lparr>messages := messages rs2 @ [Message ''user'' (ToolResults results)]\<rparr>
                         else rs2)"
        by (auto simp: execute_tool_round_def messages_create_eq Let_def)
      have "messages rs' = messages rs @ appended_turns r tnew"
        using rs' ms re by (simp add: appended_turns_def Let_def)
      moreover have "has_errors rs' = (has_errors rs \<or> (\<exists>x\<in>set tnew. raised x))"
        using rs' he by simp
      moreover have "tnew \<noteq> [] \<longrightarrow> has_tool_calls (Some r)"
      proof
        assume "tnew \<noteq> []"
        then have "map fst tnew \<noteq> []" by simp
        with fs have "tool_uses (content r) \<noteq> []" by auto
        then show "has_tool_calls (Some r)" by (simp add: has_tool_calls_tool_uses)
      qed
      ultimately show ?thesis
        using Inr True out w' mc tc fs bl by simp
    qed
  qed
qed

lemma execute_tool_round_out:
  assumes "execute_tool_round g rs tools tm w = (out, rs1, w1)"
  shows "(\<exists>e. out = Inl e) \<or> (\<exists>r. out = Inr (Some r))"
  using execute_tool_round_spec [OF assms] by (auto split: sum.splits)

lemma round_loop_rel_induct:
  assumes stop: "\<And>lr rs w. \<not> can_continue rs \<Longrightarrow> P lr rs w (Inr (FellThrough lr), rs, w)"
    and raise: "\<And>lr rs w e rs1 w1.
        can_continue rs \<Longrightarrow> execute_tool_round g rs tools tm w = (Inl e, rs1, w1) \<Longrightarrow>
        P lr rs w (Inl e, rs1, w1)"
    and return: "\<And>lr rs w r rs1 w1.
        can_continue rs \<Longrightarrow> execute_tool_round g rs tools tm w = (Inr (Some r), rs1, w1) \<Longrightarrow>
        \<not> has_tool_calls (Some r) \<Longrightarrow>
        P lr rs w (Inr (Returned (extract_text_response (Some r))), rs1, w1)"
    and continue: "\<And>lr rs w r rs1 w1 res.
        can_continue rs \<Longrightarrow> execute_tool_round g rs tools tm w = (Inr (Some r), rs1, w1) \<Longrightarrow>
        has_tool_calls (Some r) \<Longrightarrow> P (Some r) (advance_round rs1) w1 res \<Longrightarrow>
        P lr rs w res"
  shows "P lr rs w (round_loop g tools tm lr rs w)"
proof -
  have "g' = g \<longrightarrow> tools' = tools \<longrightarrow> tm' = tm \<longrightarrow>
        P lr rs w (round_loop g' tools' tm' lr rs w)" for g' tools' tm'
  proof (induction g' tools' tm' lr rs w rule: round_loop.induct)
    case (1 g' tools' tm' lr rs w)
    show ?case
    proof (intro impI)
      assume eqs: "g' = g" "tools' = tools" "tm' = tm"
      show "P lr rs w (round_loop g' tools' tm' lr rs w)"
      proof (cases "can_continue rs")
        case False
        then show ?thesis using stop by (simp add: round_loop.simps)
      next
        case True
        obtain out rs1 w1 where ex: "execute_tool_round g' rs tools' tm' w = (out, rs1, w1)"
          by (cases "execute_tool_round g' rs tools' tm' w") auto
        from execute_tool_round_out [OF ex] show ?thesis
        proof (elim disjE exE)
          fix e assume "out = Inl e"
          with True ex raise [where lr = lr] eqs show ?thesis
            by (simp add: round_loop.simps)
        next
          fix r assume out: "out = Inr (Some r)"
          show ?thesis
          proof (cases "has_tool_calls (Some r)")
            case False
            with True ex out return [where lr = lr] eqs show ?thesis
              by (simp add: round_loop.simps)
          next
            case htc: True
            have "P (Some r) (advance_round rs1) w1
                    (round_loop g' tools' tm' (Some r) (advance_round rs1) w1)"
              using "1.IH" [OF True ex [symmetric] out refl] htc eqs by simp
            moreover have "round_loop g' tools' tm' lr rs w =
                    round_loop g' tools' tm' (Some r) (advance_round rs1) w1"
              using True ex out htc by (subst round_loop.simps) simp
            ultimately show ?thesis
              using continue [OF True _ htc, where lr = lr and w = w] ex out eqs by simp
          qed
        qed
      qed
    qed
  qed
  then show ?thesis by simp
qed

lemma can_continue_budget:
  "can_continue rs \<Longrightarrow> Suc 0 \<le> nat (max_rounds rs + 1 - current_round rs)"
  unfolding can_continue_def by arith

lemma round_loop_trace: "trace_ok lr rs w (round_loop g tools tm lr rs w)"
proof (rule round_loop_rel_induct [where P = trace_ok])
  fix lr rs w
  assume "\<not> can_continue rs"
  then show "trace_ok lr rs w (Inr (FellThrough lr), rs, w)"
    by (simp add: trace_ok_def exit_ok_def)
next
  fix lr rs w e rs1 w1
  assume cc: "can_continue rs" and ex: "execute_tool_round g rs tools tm w = (Inl e, rs1, w1)"
  from execute_tool_round_spec [OF ex] obtain mo where
    "model_calls w1 = model_calls w @ [(round_api_params g rs tools, mo)]" "mo = Inl e" "rs1 = rs"
    by (auto split: sum.splits)
  with can_continue_budget [OF cc] show "trace_ok lr rs w (Inl e, rs1, w1)"
    by (simp add: trace_ok_def exit_ok_def)
next
  fix lr rs w r rs1 w1
  assume cc: "can_continue rs"
    and ex: "execute_tool_round g rs tools tm w = (Inr (Some r), rs1, w1)"
    and nt: "\<not> has_tool_calls (Some r)"
  from execute_tool_round_spec [OF ex] obtain mo where
    "model_calls w1 = model_calls w @ [(round_api_params g rs tools, mo)]" "mo = Inr r"
    by (auto split: sum.splits)
  moreover from execute_tool_round_rounds [OF ex] have "max_rounds rs1 = max_rounds rs" by simp
  ultimately show "trace_ok lr rs w (Inr (Returned (extract_text_response (Some r))), rs1, w1)"
    using can_continue_budget [OF cc] nt by (simp add: trace_ok_def exit_ok_def)
next
  fix lr rs w r rs1 w1 res
  assume cc: "can_continue rs"
    and ex: "execute_tool_round g rs tools tm w = (Inr (Some r), rs1, w1)"
    and ht: "has_tool_calls (Some r)"
    and ih: "trace_ok (Some r) (advance_round rs1) w1 res"
  obtain out rs' w' where res: "res = (out, rs', w')" by (cases res) auto
  from execute_tool_round_spec [OF ex] obtain mo where
    m1: "model_calls w1 = model_calls w @ [(round_api_params g rs tools, mo)]" and mo: "mo = Inr r"
    by (auto split: sum.splits)
  from execute_tool_round_rounds [OF ex]
  have rd: "max_rounds rs1 = max_rounds rs" "current_round rs1 = current_round rs" by simp_all
  from ih res obtain m2 where
    m2: "model_calls w' = model_calls w1 @ m2" and
    len: "length m2 \<le> nat (max_rounds (advance_round rs1) + 1 - current_round (advance_round rs1))" and
    mr: "max_rounds rs' = max_rounds (advance_round rs1)" and
    bl: "\<forall>x\<in>set (butlast m2). \<exists>r. snd x = Inr r \<and> has_tool_calls (Some r)" and
    eo: "exit_ok out (Some r) (advance_round rs1) rs' m2"
    by (auto simp: trace_ok_def)
  let ?x = "(round_api_params g rs tools, Inr r :: error + response)"
  let ?m = "?x # m2"
  have "model_calls w' = model_calls w @ ?m" using m1 m2 mo by simp
  moreover have "length ?m \<le> nat (max_rounds rs + 1 - current_round rs)"
    using len rd cc unfolding advance_round_def can_continue_def by simp arith
  moreover have "max_rounds rs' = max_rounds rs" using mr rd by (simp add: advance_round_def)
  moreover have "\<forall>x\<in>set (butlast ?m). \<exists>r. snd x = Inr r \<and> has_tool_calls (Some r)"
    using bl ht by (auto split: if_splits)
  moreover have "exit_ok out lr rs rs' ?m"
    using eo ht by (auto simp: exit_ok_def split: sum.splits loop_exit.splits if_splits)
  ultimately show "trace_ok lr rs w res"
    unfolding trace_ok_def res by blast
qed

lemma butlast_append_ok:
  assumes "\<forall>x\<in>set a. \<not> Q x" "\<forall>x\<in>set (butlast b). \<not> Q x"
  shows "\<forall>x\<in>set (butlast (a @ b)). \<not> Q x"
  using assms by (cases "b = []") (auto simp: butlast_append dest: in_set_butlastD)

lemma round_loop_tools: "tools_ok lr rs w (round_loop g tools tm lr rs w)"
proof (rule round_loop_rel_induct [where P = tools_ok])
  fix lr rs w
  assume "\<not> can_continue rs"
  then show "tools_ok lr rs w (Inr (FellThrough lr), rs, w)"
    by (simp add: tools_ok_def)
next
  fix lr rs w e rs1 w1
  assume cc: "can_continue rs" and ex: "execute_tool_round g rs tools tm w = (Inl e, rs1, w1)"
  from execute_tool_round_spec [OF ex] have "tool_calls w1 = tool_calls w"
    by (auto split: sum.splits)
  with cc show "tools_ok lr rs w (Inl e, rs1, w1)"
    by (simp add: tools_ok_def)
next
  fix lr rs w r rs1 w1
  assume cc: "can_continue rs"
    and ex: "execute_tool_round g rs tools tm w = (Inr (Some r), rs1, w1)"
    and nt: "\<not> has_tool_calls (Some r)"
  from execute_tool_round_spec [OF ex] nt have "tool_calls w1 = tool_calls w"
    by (auto split: sum.splits)
  with cc show "tools_ok lr rs w (Inr (Returned (extract_text_response (Some r))), rs1, w1)"
    by (simp add: tools_ok_def)
next
  fix lr rs w r rs1 w1 res
  assume cc: "can_continue rs"
    and ex: "execute_tool_round g rs tools tm w = (Inr (Some r), rs1, w1)"
    and ht: "has_tool_calls (Some r)"
    and ih: "tools_ok (Some r) (advance_round rs1) w1 res"
  obtain out rs' w' where res: "res = (out, rs', w')" by (cases res) auto
  from execute_tool_round_spec [OF ex] obtain t1 where
    t1: "tool_calls w1 = tool_calls w @ t1" and
    b1: "\<forall>x\<in>set (butlast t1). \<not> raised x" and
    h1: "has_errors rs1 = (has_errors rs \<or> (\<exists>x\<in>set t1. raised x))"
    by (auto split: sum.splits)
  from execute_tool_round_rounds [OF ex]
  have rd: "max_rounds rs1 = max_rounds rs" "current_round rs1 = current_round rs" by simp_all
  from ih res obtain t2 where
    t2: "tool_calls w' = tool_calls w1 @ t2" and
    b2: "\<forall>x\<in>set (butlast t2). \<not> raised x" and
    r2: "(\<exists>x\<in>set t2. raised x) \<longrightarrow>
           has_errors rs' \<and> (\<exists>r. out = Inr (FellThrough (Some r)) \<and> has_tool_calls (Some r))" and
    s2: "\<not> can_continue (advance_round rs1) \<longrightarrow>
           t2 = [] \<and> out = Inr (FellThrough (Some r)) \<and> rs' = advance_round rs1"
    by (auto simp: tools_ok_def)
  have tc: "tool_calls w' = tool_calls w @ (t1 @ t2)" using t1 t2 by simp
  show "tools_ok lr rs w res"
  proof (cases "\<exists>x\<in>set t1. raised x")
    case True
    with h1 have "has_errors (advance_round rs1)" by (simp add: advance_round_def)
    then have "\<not> can_continue (advance_round rs1)" by (simp add: can_continue_def)
    with s2 have e2: "t2 = []" "out = Inr (FellThrough (Some r))" "rs' = advance_round rs1" by simp_all
    have "has_errors rs'" using e2 True h1 by (simp add: advance_round_def)
    with e2 tc b1 ht cc show ?thesis
      unfolding tools_ok_def res by (intro case_prodI exI [of _ "t1 @ t2"]) simp
  next
    case False
    then have "\<forall>x\<in>set (butlast (t1 @ t2)). \<not> raised x"
      using b2 by (intro butlast_append_ok) auto
    moreover have "(\<exists>x\<in>set (t1 @ t2). raised x) \<longrightarrow>
           has_errors rs' \<and> (\<exists>r. out = Inr (FellThrough (Some r)) \<and> has_tool_calls (Some r))"
      using False r2 by auto
    ultimately show ?thesis
      using tc cc unfolding tools_ok_def res by (intro case_prodI exI [of _ "t1 @ t2"]) simp
  qed
qed






lemma round_loop_raise:
  "\<forall>e rs' w'. round_loop g tools tm lr rs w = (Inl e, rs', w') \<longrightarrow>
       can_continue rs' \<and> model_calls w' \<noteq> [] \<and>
       last (model_calls w') = (round_api_params g rs' tools, Inl e)"
proof (rule round_loop_rel_induct
    [where P = "\<lambda>lr rs w res. \<forall>e rs' w'. res = (Inl e, rs', w') \<longrightarrow>
       can_continue rs' \<and> model_calls w' \<noteq> [] \<and>
       last (model_calls w') = (round_api_params g rs' tools, Inl e)"])
  fix lr rs w
  show "\<forall>e rs' w'. (Inr (FellThrough lr), rs, w) = (Inl e, rs', w') \<longrightarrow>
       can_continue rs' \<and> model_calls w' \<noteq> [] \<and>
       last (model_calls w') = (round_api_params g rs' tools, Inl e)"
    by simp
next
  fix lr rs w e rs1 w1
  assume cc: "can_continue rs" and ex: "execute_tool_round g rs tools tm w = (Inl e, rs1, w1)"
  from execute_tool_round_spec [OF ex] obtain mo where
    "model_calls w1 = model_calls w @ [(round_api_params g rs tools, mo)]" "mo = Inl e" "rs1 = rs"
    by (auto split: sum.splits)
  with cc show "\<forall>e' rs' w'. (Inl e, rs1, w1) = (Inl e', rs', w') \<longrightarrow>
       can_continue rs' \<and> model_calls w' \<noteq> [] \<and>
       last (model_calls w') = (round_api_params g rs' tools, Inl e')"
    by auto
next
  fix lr rs w r rs1 w1
  show "\<forall>e rs' w'. (Inr (Returned (extract_text_response (Some r))), rs1, w1) = (Inl e, rs', w') \<longrightarrow>
       can_continue rs' \<and> model_calls w' \<noteq> [] \<and>
       last (model_calls w') = (round_api_params g rs' tools, Inl e)"
    by simp
next
  fix lr rs w r rs1 w1 and res :: "(error + loop_exit) \<times> ToolRoundState \<times> world"
  assume "\<forall>e rs' w'. res = (Inl e, rs', w') \<longrightarrow>
       can_continue rs' \<and> model_calls w' \<noteq> [] \<and>
       last (model_calls w') = (round_api_params g rs' tools, Inl e)"
  then show "\<forall>e rs' w'. res = (Inl e, rs', w') \<longrightarrow>
       can_continue rs' \<and> model_calls w' \<noteq> [] \<and>
       last (model_calls w') = (round_api_params g rs' tools, Inl e)" .
qed

lemma get_final_response_eq:
  "get_final_response g rs w =
     (let req = base_params g (messages rs) (system_content rs);
          mo = client g (length (model_calls w)) req
      in (final_text mo, w\<lparr>model_calls := model_calls w @ [(req, mo)]\<rparr>))"
  by (simp add: get_final_response_def messages_create_eq final_text_def Let_def split: sum.splits)

lemma seq_unfold:
  assumes loop: "round_loop g tools tm None (initial_round_state g q h mr) w = (out, rs1, w1)"
  shows "generate_response_with_sequential_tools g q h tools tm mr w =
     (case out of
        Inl e \<Rightarrow> (Inr (''Error during sequential tool execution: '' @ str e), rs1, w1)
      | Inr (Returned s) \<Rightarrow> (Inr s, rs1, w1)
      | Inr (FellThrough lr) \<Rightarrow>
          if has_tool_calls lr then
            (Inr (final_text (client g (length (model_calls w1))
                    (base_params g (messages rs1) (system_content rs1)))), rs1,
             w1\<lparr>model_calls := model_calls w1 @
                    [(base_params g (messages rs1) (system_content rs1),
                      client g (length (model_calls w1))
                        (base_params g (messages rs1) (system_content rs1)))]\<rparr>)
          else (Inr (if lr \<noteq> None then extract_text_response lr
                     else ''Error: No response received''), rs1, w1))"
  using loop
  by (auto simp: generate_response_with_sequential_tools_def get_final_response_eq Let_def
                 has_tool_calls_def
           split: sum.splits loop_exit.splits)

lemma seq_model_trace:
  assumes run: "generate_response_with_sequential_tools g q h tools tm mr w = (res, rs', w')"
  shows "\<exists>mloop mfin. model_calls w' = model_calls w @ mloop @ mfin \<and>
           length mloop \<le> nat mr \<and>
           (\<forall>x\<in>set (butlast mloop). \<exists>r. snd x = Inr r \<and> has_tool_calls (Some r)) \<and>
           seq_outcome g w res rs' mloop mfin"
proof -
  let ?rs0 = "initial_round_state g q h mr"
  obtain out rs1 w1 where loop: "round_loop g tools tm None ?rs0 w = (out, rs1, w1)"
    by (cases "round_loop g tools tm None ?rs0 w") auto
  from round_loop_trace [of None ?rs0 w g tools tm] loop obtain mloop where
    mc: "model_calls w1 = model_calls w @ mloop" and
    len: "length mloop \<le> nat (max_rounds ?rs0 + 1 - current_round ?rs0)" and
    bl: "\<forall>x\<in>set (butlast mloop). \<exists>r. snd x = Inr r \<and> has_tool_calls (Some r)" and
    eo: "exit_ok out None ?rs0 rs1 mloop"
    by (auto simp: trace_ok_def)
  have len': "length mloop \<le> nat mr" using len by (simp add: initial_round_state_def)
  note un = run [unfolded seq_unfold [OF loop]]
  show ?thesis
  proof (cases out)
    case (Inl e)
    with un eo mc have "model_calls w' = model_calls w @ mloop @ []"
      "seq_outcome g w res rs' mloop []"
      by (auto simp: exit_ok_def seq_outcome_def)
    with len' bl show ?thesis by blast
  next
    case (Inr ex)
    show ?thesis
    proof (cases ex)
      case (Returned s)
      with Inr un eo mc have "model_calls w' = model_calls w @ mloop @ []"
        "seq_outcome g w res rs' mloop []"
        by (auto simp: exit_ok_def seq_outcome_def)
      with len' bl show ?thesis by blast
    next
      case (FellThrough lr)
      show ?thesis
      proof (cases "mloop = []")
        case True
        with FellThrough Inr eo have "lr = None" by (simp add: exit_ok_def)
        with FellThrough Inr un mc True have "model_calls w' = model_calls w @ mloop @ []"
          "seq_outcome g w res rs' mloop []"
          by (auto simp: seq_outcome_def has_tool_calls_def)
        with len' bl show ?thesis by blast
      next
        case False
        with FellThrough Inr eo obtain r where
          r: "snd (last mloop) = Inr r" "lr = Some r" "has_tool_calls (Some r)"
          and nc: "\<not> can_continue rs1"
          by (auto simp: exit_ok_def)
        let ?req = "base_params g (messages rs1) (system_content rs1)"
        let ?mo = "client g (length (model_calls w1)) ?req"
        from FellThrough Inr un r
        have "res = Inr (final_text ?mo)" "rs' = rs1"
          "w' = w1\<lparr>model_calls := model_calls w1 @ [(?req, ?mo)]\<rparr>"
          by auto
        with mc r nc False have "model_calls w' = model_calls w @ mloop @ [(?req, ?mo)]"
          "seq_outcome g w res rs' mloop [(?req, ?mo)]"
          by (auto simp: seq_outcome_def)
        with len' bl show ?thesis by blast
      qed
    qed
  qed
qed

lemma seq_trace_new:
  assumes run: "generate_response_with_sequential_tools g q h tools tm mr w = (res, rs', w')"
  obtains mloop mfin where
    "new_model_calls w w' = mloop @ mfin"
    "model_calls w' = model_calls w @ mloop @ mfin"
    "length mloop \<le> nat mr"
    "\<forall>x\<in>set (butlast mloop). \<exists>r. snd x = Inr r \<and> has_tool_calls (Some r)"
    "seq_outcome g w res rs' mloop mfin"
proof -
  from seq_model_trace [OF run] obtain mloop mfin where
    a: "model_calls w' = model_calls w @ mloop @ mfin" and
    b: "length mloop \<le> nat mr"
       "\<forall>x\<in>set (butlast mloop). \<exists>r. snd x = Inr r \<and> has_tool_calls (Some r)"
       "seq_outcome g w res rs' mloop mfin"
    by blast
  from a have "new_model_calls w w' = mloop @ mfin" by (simp add: new_model_calls_def)
  with a b that show ?thesis by blast
qed

lemma in_set_butlast_or_last:
  "x \<in> set xs \<Longrightarrow> x \<in> set (butlast xs) \<or> x = last xs"
  by (cases xs rule: rev_cases) auto

lemma first_text_None_iff:
  "first_text bs = None \<longleftrightarrow> (\<forall>b\<in>set bs. block_text b = None)"
  by (induction bs) (auto split: option.splits)

lemma seq_outcome_cases:
  assumes "seq_outcome g w res rs' mloop mfin"
  obtains
      (none) "mfin = []" "mloop = []" "res = Inr ''Error: No response received''"
    | (raise) e where "mfin = []" "mloop \<noteq> []" "snd (last mloop) = Inl e"
        "res = Inr (''Error during sequential tool execution: '' @ str e)"
    | (return) r where "mfin = []" "mloop \<noteq> []" "snd (last mloop) = Inr r"
        "\<not> has_tool_calls (Some r)" "res = Inr (extract_text_response (Some r))"
    | (final) r mo where "mloop \<noteq> []" "snd (last mloop) = Inr r" "has_tool_calls (Some r)"
        "\<not> can_continue rs'"
        "mo = client g (length (model_calls w) + length mloop)
                (base_params g (messages rs') (system_content rs'))"
        "mfin = [(base_params g (messages rs') (system_content rs'), mo)]"
        "res = Inr (final_text mo)"
  using assms unfolding seq_outcome_def by blast

lemma loop_call_without_tools:
  assumes "\<forall>x\<in>set (butlast mloop). \<exists>r. snd x = Inr r \<and> has_tool_calls (Some r)"
    and "x \<in> set mloop" "snd x = Inr r" "\<not> has_tool_calls (Some r)"
  shows "x = last mloop"
  using assms in_set_butlast_or_last [of x mloop] by fastforce

lemma filter_not_raised_butlast:
  assumes "tnew \<noteq> []" "raised (last tnew)" "\<forall>x\<in>set (butlast tnew). \<not> raised x"
  shows "filter (\<lambda>x. \<not> raised x) tnew = butlast tnew"
proof -
  have "tnew = butlast tnew @ [last tnew]" using assms(1) by simp
  then have "filter (\<lambda>x. \<not> raised x) tnew =
             filter (\<lambda>x. \<not> raised x) (butlast tnew) @ filter (\<lambda>x. \<not> raised x) [last tnew]"
    by (metis filter_append)
  with assms(2,3) show ?thesis by (simp add: filter_id_conv)
qed

lemma raised_last:
  assumes "\<exists>x\<in>set tnew. raised x" "\<forall>x\<in>set (butlast tnew). \<not> raised x"
  shows "tnew \<noteq> [] \<and> raised (last tnew)"
  using assms in_set_butlast_or_last by fastforce








text \<open>Unfolding a run on concrete collaborators.\<close>

lemmas fixture_defs =
  empty_world_def text_block_def tool_use_block_def searching_client_def
  searching_generator_def echo_tool_def failing_tool_def

lemmas seq_eval =
  generate_response_with_sequential_tools_def round_loop.simps initial_round_state_def
  can_continue_def execute_tool_round_def round_api_params_def base_params_def
  messages_create_def execute_tool_def Let_def truthy_def has_tool_calls_def
  advance_round_def add_tool_execution_def get_final_response_def
  extract_text_response_def build_system_content_def new_model_calls_def
  new_tool_calls_def

section \<open>The round state\<close>

text \<open>
  C4.  For every round state, \<open>can_continue\<close> is true exactly when
  \<open>current_round \<le> max_rounds\<close> and no error is recorded.  At
  \<open>current_round = max_rounds\<close> without an error it is true; at
  \<open>current_round = max_rounds + 1\<close> it is false.
\<close>

theorem can_continue_iff:
  "can_continue s = (current_round s \<le> max_rounds s \<and> \<not> has_errors s)
   \<and> can_continue (s\<lparr>current_round := max_rounds s, has_errors := False\<rparr>)
   \<and> \<not> can_continue (s\<lparr>current_round := max_rounds s + 1\<rparr>)"
  by (simp add: can_continue_def)

section \<open>Model calls of the sequential path\<close>

text \<open>
  C3.  For every \<open>max_rounds \<ge> 1\<close>, every endpoint and every executor, one call
  of \<open>generate_response_with_sequential_tools\<close> issues at most
  \<open>max_rounds + 1\<close> model calls; when it issues that many, the last one is the
  final call, which carries no tool descriptors.
\<close>

theorem model_calls_bounded:
  assumes "1 \<le> mr"
    and run: "generate_response_with_sequential_tools g q h tools tm mr w = (res, rs', w')"
  shows "model_calls w' = model_calls w @ new_model_calls w w' \<and>
         length (new_model_calls w w') \<le> nat mr + 1 \<and>
         (length (new_model_calls w w') = nat mr + 1 \<longrightarrow>
            req_tools (fst (last (new_model_calls w w'))) = None)"
proof -
  from run obtain mloop mfin where
    new: "new_model_calls w w' = mloop @ mfin" and
    mc: "model_calls w' = model_calls w @ mloop @ mfin" and
    len: "length mloop \<le> nat mr" and
    oc: "seq_outcome g w res rs' mloop mfin"
    by (rule seq_trace_new)
  from oc have fin: "mfin = [] \<or>
      (\<exists>mo. mfin = [(base_params g (messages rs') (system_content rs'), mo)])"
    by (auto simp: seq_outcome_def)
  then have "length mfin \<le> 1" by auto
  with len have "length (new_model_calls w w') \<le> nat mr + 1" using new by simp
  moreover have "req_tools (fst (last (new_model_calls w w'))) = None"
    if "length (new_model_calls w w') = nat mr + 1"
  proof -
    from that len new have "mfin \<noteq> []" by auto
    with fin new show ?thesis by (auto simp: base_params_def)
  qed
  ultimately show ?thesis using mc new by simp
qed

theorem model_calls_bounded_witness:
  "(1::int) \<le> 2 \<and>
   length (new_model_calls empty_world
      (snd (snd (generate_response_with_sequential_tools searching_generator ''q'' None
                   (Some [''search'']) (Some echo_tool) 2 empty_world)))) = 3 \<and>
   req_tools (fst (last (new_model_calls empty_world
      (snd (snd (generate_response_with_sequential_tools searching_generator ''q'' None
                   (Some [''search'']) (Some echo_tool) 2 empty_world)))))) = None"
proof -
  let ?R = "generate_response_with_sequential_tools searching_generator ''q'' None
              (Some [''search'']) (Some echo_tool) 2 empty_world"
  have h: "(1::int) \<le> 2" by simp
  have run: "?R = (fst ?R, fst (snd ?R), snd (snd ?R))" by simp
  have n: "length (new_model_calls empty_world (snd (snd ?R))) = 3"
    by (simp add: seq_eval fixture_defs)
  from model_calls_bounded [OF h run] n show ?thesis by simp
qed

section \<open>Failures of the model endpoint\<close>

text \<open>
  C1, as stated, fails: when the endpoint is down, the exception of the first model
  call does not leave \<open>generate_response_with_sequential_tools\<close>; the handler
  around the loop turns it into the returned string.
\<close>

theorem transport_error_returned_as_string:
  "snd (hd (new_model_calls empty_world
      (snd (snd (generate_response_with_sequential_tools down_generator ''q'' None None None 2
                   empty_world))))) = Inl (Exception ''connection refused'') \<and>
   fst (generate_response_with_sequential_tools down_generator ''q'' None None None 2 empty_world)
     = Inr ''Error during sequential tool execution: connection refused''"
  by (simp add: seq_eval empty_world_def down_client_def down_generator_def)

text \<open>
  C1, amended.  \<open>generate_response_with_sequential_tools\<close> always returns a
  string, and no model call follows a model call that raised: every call but the last
  one returned.  When the last call raised \<open>e\<close>, one of two cases holds.
  Either the failing call is a call of the loop: it is the last call the loop made,
  the loop was left by the exception, the request is the one
  \<open>_execute_tool_round\<close> builds in the final round state, which could still
  continue, and the returned string is
  \<open>Error during sequential tool execution: \<close> followed by \<open>str(e)\<close>.
  Or the failing call is the one call made after the loop, by
  \<open>_get_final_response\<close>: the loop fell through with tool-use requests
  pending, the request is the tool-free one built from the round state, which cannot
  continue, and the returned string is \<open>Error generating final response: \<close>
  followed by \<open>str(e)\<close>.
\<close>

theorem transport_error_reported:
  assumes run: "generate_response_with_sequential_tools g q h tools tm mr w = (res, rs', w')"
    and loop: "round_loop g tools tm None (initial_round_state g q h mr) w = (out, rs1, w1)"
  shows "(\<exists>s. res = Inr s) \<and>
         (\<forall>x\<in>set (butlast (new_model_calls w w')). \<not> raised x) \<and>
         (\<forall>e. new_model_calls w w' \<noteq> [] \<and> snd (last (new_model_calls w w')) = Inl e \<longrightarrow>
            (new_model_calls w w' = new_model_calls w w1 \<and> out = Inl e \<and>
             fst (last (new_model_calls w w')) = round_api_params g rs' tools \<and>
             can_continue rs' \<and>
             res = Inr (''Error during sequential tool execution: '' @ str e)) \<or>
            (new_model_calls w w' =
               new_model_calls w w1 @ [(base_params g (messages rs1) (system_content rs1), Inl e)] \<and>
             (\<exists>lr. out = Inr (FellThrough lr) \<and> has_tool_calls lr) \<and>
             \<not> can_continue rs' \<and>
             res = Inr (''Error generating final response: '' @ str e)))"
proof -
  let ?rs0 = "initial_round_state g q h mr"
  note un = run [unfolded seq_unfold [OF loop]]
  from round_loop_trace [of None ?rs0 w g tools tm] loop obtain mloop where
    mc: "model_calls w1 = model_calls w @ mloop" and
    bl: "\<forall>x\<in>set (butlast mloop). \<exists>r. snd x = Inr r \<and> has_tool_calls (Some r)" and
    eo: "exit_ok out None ?rs0 rs1 mloop"
    by (auto simp: trace_ok_def)
  have n1: "new_model_calls w w1 = mloop" using mc by (simp add: new_model_calls_def)
  have blr: "\<forall>x\<in>set (butlast mloop). \<not> raised x"
    using bl by (auto simp: raised_def)
  show ?thesis
  proof (cases out)
    case (Inl e0)
    with un have r: "res = Inr (''Error during sequential tool execution: '' @ str e0)"
      and s: "rs' = rs1" "w' = w1" by auto
    from eo Inl have l: "mloop \<noteq> []" "snd (last mloop) = Inl e0" by (simp_all add: exit_ok_def)
    from round_loop_raise loop Inl
    have cc: "can_continue rs1" and lm: "last (model_calls w1) = (round_api_params g rs1 tools, Inl e0)"
      by blast+
    from lm mc l have "last mloop = (round_api_params g rs1 tools, Inl e0)" by simp
    with r s l cc blr n1 Inl show ?thesis by auto
  next
    case (Inr ex)
    show ?thesis
    proof (cases ex)
      case (Returned s)
      with Inr un have r: "res = Inr s" "w' = w1" by auto
      from eo Inr Returned obtain r' where "mloop \<noteq> []" "snd (last mloop) = Inr r'"
        by (auto simp: exit_ok_def)
      with r n1 blr show ?thesis by auto
    next
      case (FellThrough lr)
      from eo Inr FellThrough have nc: "\<not> can_continue rs1"
        and lm: "mloop = [] \<and> lr = None \<or> mloop \<noteq> [] \<and> (\<exists>r. snd (last mloop) = Inr r)"
        by (auto simp: exit_ok_def split: if_splits)
      show ?thesis
      proof (cases "has_tool_calls lr")
        case False
        with Inr FellThrough un have r: "\<exists>s. res = Inr s" "w' = w1" by auto
        with n1 blr lm show ?thesis by auto
      next
        case True
        let ?req = "base_params g (messages rs1) (system_content rs1)"
        let ?mo = "client g (length (model_calls w1)) ?req"
        from True Inr FellThrough un
        have r: "res = Inr (final_text ?mo)" and s: "rs' = rs1"
          and w': "w' = w1\<lparr>model_calls := model_calls w1 @ [(?req, ?mo)]\<rparr>"
          by auto
        from w' mc have n2: "new_model_calls w w' = mloop @ [(?req, ?mo)]"
          by (simp add: new_model_calls_def)
        from True have "lr \<noteq> None" by (cases lr) (simp_all add: has_tool_calls_def)
        with lm obtain r' where l: "mloop \<noteq> []" "snd (last mloop) = Inr r'" by auto
        have "\<forall>x\<in>set mloop. \<not> raised x"
        proof
          fix x assume "x \<in> set mloop"
          then have "x \<in> set (butlast mloop) \<or> x = last mloop"
            by (rule in_set_butlast_or_last)
          with blr l show "\<not> raised x" by (auto simp: raised_def)
        qed
        with r s n1 n2 nc True Inr FellThrough show ?thesis
          by (auto simp: final_text_def)
      qed
    qed
  qed
qed

theorem transport_error_reported_witness:
  "fst (generate_response_with_sequential_tools down_generator ''q'' None None None 2 empty_world)
     = Inr ''Error during sequential tool execution: connection refused'' \<and>
   fst (generate_response_with_sequential_tools flaky_generator ''q'' None
          (Some [''search'']) (Some echo_tool) 1 empty_world)
     = Inr ''Error generating final response: timeout''"
proof -
  let ?R = "generate_response_with_sequential_tools down_generator ''q'' None None None 2 empty_world"
  let ?L = "round_loop down_generator None None None
              (initial_round_state down_generator ''q'' None 2) empty_world"
  let ?e = "Exception ''connection refused''"
  have run: "?R = (fst ?R, fst (snd ?R), snd (snd ?R))" by simp
  have loop: "?L = (fst ?L, fst (snd ?L), snd (snd ?L))" by simp
  have h: "new_model_calls empty_world (snd (snd ?R)) \<noteq> [] \<and>
           snd (last (new_model_calls empty_world (snd (snd ?R)))) = Inl ?e"
    by (simp add: seq_eval empty_world_def down_client_def down_generator_def)
  have c: "can_continue (fst (snd ?R))"
    by (simp add: seq_eval empty_world_def down_client_def down_generator_def)
  from transport_error_reported [OF run loop] h c
  have a: "fst ?R = Inr (''Error during sequential tool execution: '' @ str ?e)" by blast
  let ?R2 = "generate_response_with_sequential_tools flaky_generator ''q'' None
               (Some [''search'']) (Some echo_tool) 1 empty_world"
  let ?L2 = "round_loop flaky_generator (Some [''search'']) (Some echo_tool) None
               (initial_round_state flaky_generator ''q'' None 1) empty_world"
  let ?e2 = "Exception ''timeout''"
  have run2: "?R2 = (fst ?R2, fst (snd ?R2), snd (snd ?R2))" by simp
  have loop2: "?L2 = (fst ?L2, fst (snd ?L2), snd (snd ?L2))" by simp
  have h2: "new_model_calls empty_world (snd (snd ?R2)) \<noteq> [] \<and>
           snd (last (new_model_calls empty_world (snd (snd ?R2)))) = Inl ?e2"
    by (simp add: seq_eval empty_world_def flaky_client_def flaky_generator_def
                  tool_use_block_def echo_tool_def)
  have c2: "\<not> can_continue (fst (snd ?R2))"
    by (simp add: seq_eval empty_world_def flaky_client_def flaky_generator_def
                  tool_use_block_def echo_tool_def)
  from transport_error_reported [OF run2 loop2] h2 c2
  have b: "fst ?R2 = Inr (''Error generating final response: '' @ str ?e2)" by blast
  from a b show ?thesis by simp
qed

section \<open>Malformed responses and the returned string\<close>

text \<open>
  C7.  When some model response of a run has no tool-use request and no block with a
  text (in particular no block at all), the run returns the placeholder
  \<open>Error: No valid response content received from AI.\<close> and does not raise.
  Every string a run returns is the first text of a model response, or begins with
  the fixed prefix \<open>Error\<close>: the four placeholders and error strings of the
  method all do.
\<close>

theorem malformed_response_placeholder:
  assumes run: "generate_response_with_sequential_tools g q h tools tm mr w = (res, rs', w')"
  shows "(\<forall>x\<in>set (new_model_calls w w'). \<forall>r.
            snd x = Inr r \<and> \<not> has_tool_calls (Some r) \<and>
            (\<forall>b\<in>set (content r). block_text b = None) \<longrightarrow>
            res = Inr ''Error: No valid response content received from AI.'') \<and>
         (\<exists>s. res = Inr s \<and>
            (prefix ''Error'' s \<or>
             (\<exists>x\<in>set (new_model_calls w w'). \<exists>r.
                 snd x = Inr r \<and> first_text (content r) = Some s)))"
proof -
  from run obtain mloop mfin where
    new: "new_model_calls w w' = mloop @ mfin" and
    bl: "\<forall>x\<in>set (butlast mloop). \<exists>r. snd x = Inr r \<and> has_tool_calls (Some r)" and
    oc: "seq_outcome g w res rs' mloop mfin"
    by (rule seq_trace_new)
  have ph: "extract_text_response (Some r) = ''Error: No valid response content received from AI.''"
    if "\<forall>b\<in>set (content r). block_text b = None" for r
    using that by (simp add: extract_text_response_def first_text_None_iff [symmetric])
  have tx: "prefix ''Error'' (extract_text_response (Some r)) \<or>
            first_text (content r) = Some (extract_text_response (Some r))" for r
    by (simp add: extract_text_response_def split: option.splits)
  from oc show ?thesis
  proof (cases rule: seq_outcome_cases)
    case none
    with new show ?thesis by simp
  next
    case (raise e)
    have "\<not> (x \<in> set mloop \<and> snd x = Inr r \<and> \<not> has_tool_calls (Some r))" for x r
    proof
      assume a: "x \<in> set mloop \<and> snd x = Inr r \<and> \<not> has_tool_calls (Some r)"
      then have "x = last mloop" using loop_call_without_tools [OF bl] by blast
      with a raise show False by simp
    qed
    with raise new show ?thesis by auto
  next
    case (return r)
    have "r' = r" if "x \<in> set mloop" "snd x = Inr r'" "\<not> has_tool_calls (Some r')" for x r'
      using loop_call_without_tools [OF bl that] return that by auto
    moreover have "last mloop \<in> set mloop" using return by simp
    ultimately show ?thesis
      using return new ph tx [of r] by (auto split: prod.splits)
  next
    case (final r mo)
    have nl: "\<not> (x \<in> set mloop \<and> snd x = Inr r' \<and> \<not> has_tool_calls (Some r'))" for x r'
    proof
      assume a: "x \<in> set mloop \<and> snd x = Inr r' \<and> \<not> has_tool_calls (Some r')"
      then have "x = last mloop" using loop_call_without_tools [OF bl] by blast
      with a final show False by simp
    qed
    show ?thesis
    proof (cases mo)
      case (Inl e)
      with final(6,7) new nl show ?thesis by (auto simp: final_text_def)
    next
      case (Inr r')
      with final(6,7) new nl ph tx [of r'] show ?thesis
        by (auto simp: final_text_def)
    qed
  qed
qed

theorem malformed_response_placeholder_witness:
  "(\<exists>x\<in>set (new_model_calls empty_world
        (snd (snd (generate_response_with_sequential_tools mute_generator ''q'' None None None 2
                     empty_world)))).
      snd x = Inr \<lparr>stop_reason = ''end_turn'', content = []\<rparr>) \<and>
   fst (generate_response_with_sequential_tools mute_generator ''q'' None None None 2 empty_world)
     = Inr ''Error: No valid response content received from AI.''"
proof -
  let ?R = "generate_response_with_sequential_tools mute_generator ''q'' None None None 2 empty_world"
  let ?r = "\<lparr>stop_reason = ''end_turn'', content = []\<rparr>"
  have run: "?R = (fst ?R, fst (snd ?R), snd (snd ?R))" by simp
  have h: "\<exists>x\<in>set (new_model_calls empty_world (snd (snd ?R))). snd x = Inr ?r"
    by (simp add: seq_eval empty_world_def mute_client_def mute_generator_def)
  have m: "\<not> has_tool_calls (Some ?r) \<and> (\<forall>b\<in>set (content ?r). block_text b = None)"
    by (simp add: has_tool_calls_def)
  from malformed_response_placeholder [OF run] h m show ?thesis by blast
qed

text \<open>
  C8, as stated, fails: when the endpoint answers with a text block whose text is
  the empty string, that empty string is what the method returns.
\<close>

theorem empty_text_returned:
  "fst (generate_response_with_sequential_tools blank_generator ''q'' None None None 2 empty_world)
     = Inr ''''"
  by (simp add: seq_eval empty_world_def blank_client_def blank_generator_def text_block_def)

text \<open>
  C8, amended.  The method returns a string, and that string is empty exactly when
  the last model call of the run returned a response whose first text is the empty
  string.  In every other run the returned string is non-empty.
\<close>

theorem returned_string_empty_iff:
  assumes run: "generate_response_with_sequential_tools g q h tools tm mr w = (res, rs', w')"
  shows "\<exists>s. res = Inr s \<and>
           (s = [] \<longleftrightarrow>
              new_model_calls w w' \<noteq> [] \<and>
              (\<exists>r. snd (last (new_model_calls w w')) = Inr r \<and> first_text (content r) = Some []))"
proof -
  from run obtain mloop mfin where
    new: "new_model_calls w w' = mloop @ mfin" and
    oc: "seq_outcome g w res rs' mloop mfin"
    by (rule seq_trace_new)
  have ex: "extract_text_response (Some r) = [] \<longleftrightarrow> first_text (content r) = Some []" for r
    by (simp add: extract_text_response_def split: option.splits)
  from oc show ?thesis
  proof (cases rule: seq_outcome_cases)
    case none
    with new show ?thesis by simp
  next
    case (raise e)
    with new show ?thesis by simp
  next
    case (return r)
    with new ex [of r] show ?thesis by simp
  next
    case (final r mo)
    from new final(6,7) show ?thesis
      by (cases mo) (simp_all add: final_text_def ex)
  qed
qed

theorem returned_string_empty_iff_witness:
  "fst (generate_response_with_sequential_tools searching_generator ''q'' None
          (Some [''search'']) (Some echo_tool) 2 empty_world) = Inr ''Final answer''"
proof -
  let ?R = "generate_response_with_sequential_tools searching_generator ''q'' None
              (Some [''search'']) (Some echo_tool) 2 empty_world"
  have run: "?R = (fst ?R, fst (snd ?R), snd (snd ?R))" by simp
  have l: "snd (last (new_model_calls empty_world (snd (snd ?R)))) =
             Inr \<lparr>stop_reason = ''end_turn'', content = [text_block ''Final answer'']\<rparr>"
    by (simp add: seq_eval fixture_defs)
  have t: "fst ?R = Inr ''Final answer''"
    by (simp add: seq_eval fixture_defs)
  from returned_string_empty_iff [OF run] l t show ?thesis by simp
qed

section \<open>Failures of the tool executor\<close>

text \<open>
  C6.  When a tool execution raises inside a round (\<open>_execute_tool_round\<close>),
  the round state is marked errored; the failing call is the last executor call of
  the round, so no later tool-use request is dispatched; the executor calls made are
  those of the first tool-use requests of the response, in order, up through the
  failing one; and the transcript gains the assistant turn followed, when some call
  succeeded before the failure, by a single user turn holding the results collected.
\<close>

theorem tool_failure_in_round:
  assumes ex: "execute_tool_round g rs tools tm w = (out, rs', w')"
    and fail: "\<exists>x\<in>set (new_tool_calls w w'). raised x"
  shows "has_errors rs' \<and>
         raised (last (new_tool_calls w w')) \<and>
         (\<forall>y\<in>set (butlast (new_tool_calls w w')). \<not> raised y) \<and>
         (\<exists>r. out = Inr (Some r) \<and>
              map fst (new_tool_calls w w') =
                map call_of (take (length (new_tool_calls w w')) (tool_uses (content r))) \<and>
              messages rs' = messages rs @
                Message ''assistant'' (BlockContent (content r)) #
                (if butlast (new_tool_calls w w') = [] then []
                 else [Message ''user'' (ToolResults
                         (map2 result_entry (tool_uses (content r))
                            (butlast (new_tool_calls w w'))))]))"
proof -
  from execute_tool_round_spec [OF ex] obtain mo tnew where
    tc: "tool_calls w' = tool_calls w @ tnew" and
    out: "out = (case mo of Inl e \<Rightarrow> Inl e | Inr r \<Rightarrow> Inr (Some r))" and
    he: "has_errors rs' = (has_errors rs \<or> (\<exists>x\<in>set tnew. raised x))" and
    bl: "\<forall>x\<in>set (butlast tnew). \<not> raised x" and
    ne: "tnew \<noteq> [] \<longrightarrow>
           (\<exists>r. mo = Inr r \<and> has_tool_calls (Some r) \<and> stop_reason r = ''tool_use'') \<and>
           tm \<noteq> None" and
    rr: "\<forall>r. mo = Inr r \<longrightarrow>
           map fst tnew = map call_of (take (length tnew) (tool_uses (content r))) \<and>
           messages rs' = messages rs @
             (if stop_reason r = ''tool_use'' \<and> tm \<noteq> None then appended_turns r tnew else [])"
    by blast
  have new: "new_tool_calls w w' = tnew" using tc by (simp add: new_tool_calls_def)
  from fail new have ex1: "\<exists>x\<in>set tnew. raised x" by simp
  from raised_last [OF ex1 bl] have nz: "tnew \<noteq> []" and rl: "raised (last tnew)" by simp_all
  from ne nz obtain r where r: "mo = Inr r" "stop_reason r = ''tool_use''" "tm \<noteq> None" by blast
  with rr have fs: "map fst tnew = map call_of (take (length tnew) (tool_uses (content r)))"
    and ms: "messages rs' = messages rs @ appended_turns r tnew" by simp_all
  from fs have "length tnew = length (take (length tnew) (tool_uses (content r)))"
    by (metis length_map)
  then have le: "length tnew \<le> length (tool_uses (content r))" by simp
  have fl: "filter (\<lambda>x. \<not> raised x) tnew = butlast tnew"
    by (rule filter_not_raised_butlast [OF nz rl bl])
  have em: "map2 result_entry (tool_uses (content r)) (butlast tnew) = [] \<longleftrightarrow> butlast tnew = []"
    using le nz by (cases "tool_uses (content r)") auto
  have "appended_turns r tnew =
          Message ''assistant'' (BlockContent (content r)) #
          (if butlast tnew = [] then []
           else [Message ''user'' (ToolResults
                   (map2 result_entry (tool_uses (content r)) (butlast tnew)))])"
    using em by (simp add: appended_turns_def fl Let_def)
  with ms fs he ex1 rl bl r out show ?thesis unfolding new by simp
qed

theorem tool_failure_in_round_witness:
  "raised (last (new_tool_calls empty_world
      (snd (snd (execute_tool_round three_searches_generator
                   (initial_round_state three_searches_generator ''q'' None 2)
                   (Some [''search'']) (Some second_fails) empty_world))))) \<and>
   map fst (new_tool_calls empty_world
      (snd (snd (execute_tool_round three_searches_generator
                   (initial_round_state three_searches_generator ''q'' None 2)
                   (Some [''search'']) (Some second_fails) empty_world))))
     = [(''search'', [(''query'', ''a'')]), (''search'', [(''query'', ''b'')])] \<and>
   has_errors (fst (snd (execute_tool_round three_searches_generator
                   (initial_round_state three_searches_generator ''q'' None 2)
                   (Some [''search'']) (Some second_fails) empty_world)))"
proof -
  let ?E = "execute_tool_round three_searches_generator
              (initial_round_state three_searches_generator ''q'' None 2)
              (Some [''search'']) (Some second_fails) empty_world"
  have ex: "?E = (fst ?E, fst (snd ?E), snd (snd ?E))" by simp
  have tn: "new_tool_calls empty_world (snd (snd ?E)) =
              [((''search'', [(''query'', ''a'')]), Inr ''found''),
               ((''search'', [(''query'', ''b'')]), Inl (Exception ''Tool failed''))]"
    by (simp add: seq_eval empty_world_def tool_use_block_def second_fails_def
                  three_searches_def three_searches_generator_def)
  then have h: "\<exists>x\<in>set (new_tool_calls empty_world (snd (snd ?E))). raised x"
    by (simp add: raised_def)
  from tool_failure_in_round [OF ex h] tn show ?thesis by simp
qed

text \<open>
  C2, as stated, fails: the endpoint first answers \<open>Let me look that up\<close>
  together with a tool-use request, the executor fails, and the method returns
  \<open>Final answer\<close>, the text of a further model call made after the failure.  It
  returns neither the text obtained before the failure nor a placeholder.
\<close>

theorem tool_failure_returns_new_answer:
  "raised (hd (new_tool_calls empty_world
      (snd (snd (generate_response_with_sequential_tools searching_generator ''q'' None
                   (Some [''search'']) (Some failing_tool) 2 empty_world))))) \<and>
   map (\<lambda>x. map_sum id (\<lambda>r. extract_text_response (Some r)) (snd x))
     (new_model_calls empty_world
      (snd (snd (generate_response_with_sequential_tools searching_generator ''q'' None
                   (Some [''search'']) (Some failing_tool) 2 empty_world))))
     = [Inr ''Let me look that up'', Inr ''Final answer''] \<and>
   fst (generate_response_with_sequential_tools searching_generator ''q'' None
          (Some [''search'']) (Some failing_tool) 2 empty_world) = Inr ''Final answer''"
  by (simp add: seq_eval fixture_defs raised_def)

text \<open>
  C2, amended.  When a tool execution fails during a run, the round state is marked
  errored and the failing call is the last executor call of the run, so no further
  tool round follows.  The loop is left with its last response still holding tool-use
  requests, so one more model call is issued, with the accumulated transcript and
  system content and without tool descriptors, and the string returned is what
  \<open>_get_final_response\<close> makes of that call: its extracted text, or
  \<open>Error generating final response: \<close> followed by \<open>str(e)\<close>.
\<close>

theorem tool_failure_forces_final_call:
  assumes run: "generate_response_with_sequential_tools g q h tools tm mr w = (res, rs', w')"
    and fail: "\<exists>x\<in>set (new_tool_calls w w'). raised x"
  shows "has_errors rs' \<and>
         raised (last (new_tool_calls w w')) \<and>
         (\<forall>x\<in>set (butlast (new_tool_calls w w')). \<not> raised x) \<and>
         2 \<le> length (new_model_calls w w') \<and>
         (\<forall>x\<in>set (butlast (new_model_calls w w')). \<exists>r. snd x = Inr r \<and> has_tool_calls (Some r)) \<and>
         fst (last (new_model_calls w w')) = base_params g (messages rs') (system_content rs') \<and>
         res = Inr (final_text (snd (last (new_model_calls w w'))))"
proof -
  let ?rs0 = "initial_round_state g q h mr"
  obtain out rs1 w1 where loop: "round_loop g tools tm None ?rs0 w = (out, rs1, w1)"
    by (cases "round_loop g tools tm None ?rs0 w") auto
  note un = run [unfolded seq_unfold [OF loop]]
  from round_loop_tools [of None ?rs0 w g tools tm] loop obtain tnew where
    tc: "tool_calls w1 = tool_calls w @ tnew" and
    bl: "\<forall>x\<in>set (butlast tnew). \<not> raised x" and
    rz: "(\<exists>x\<in>set tnew. raised x) \<longrightarrow>
           has_errors rs1 \<and> (\<exists>r. out = Inr (FellThrough (Some r)) \<and> has_tool_calls (Some r))"
    by (auto simp: tools_ok_def)
  from round_loop_trace [of None ?rs0 w g tools tm] loop obtain mloop where
    mc: "model_calls w1 = model_calls w @ mloop" and
    mb: "\<forall>x\<in>set (butlast mloop). \<exists>r. snd x = Inr r \<and> has_tool_calls (Some r)" and
    eo: "exit_ok out None ?rs0 rs1 mloop"
    by (auto simp: trace_ok_def)
  have "tool_calls w' = tool_calls w1"
    using un by (auto split: sum.splits loop_exit.splits if_splits)
  with tc have nt: "new_tool_calls w w' = tnew" by (simp add: new_tool_calls_def)
  with fail have f: "\<exists>x\<in>set tnew. raised x" by simp
  with rz obtain r where he: "has_errors rs1" and out: "out = Inr (FellThrough (Some r))"
    and ht: "has_tool_calls (Some r)" by blast
  let ?req = "base_params g (messages rs1) (system_content rs1)"
  let ?mo = "client g (length (model_calls w1)) ?req"
  from un out ht have res: "res = Inr (final_text ?mo)" and rs': "rs' = rs1"
    and w': "w' = w1\<lparr>model_calls := model_calls w1 @ [(?req, ?mo)]\<rparr>"
    by auto
  from w' mc have nm: "new_model_calls w w' = mloop @ [(?req, ?mo)]"
    by (simp add: new_model_calls_def)
  from eo out have ml: "mloop \<noteq> []" "\<exists>r. snd (last mloop) = Inr r \<and> has_tool_calls (Some r)"
    by (auto simp: exit_ok_def split: if_splits)
  have all: "\<forall>x\<in>set mloop. \<exists>r. snd x = Inr r \<and> has_tool_calls (Some r)"
    using mb ml in_set_butlast_or_last [of _ mloop] by metis
  from ml have "2 \<le> length (mloop @ [(?req, ?mo)])"
    by (cases mloop) simp_all
  with raised_last [OF f bl] bl he res rs' all show ?thesis
    unfolding nt nm by (simp add: butlast_append)
qed

theorem tool_failure_forces_final_call_witness:
  "(\<exists>x\<in>set (new_tool_calls empty_world
        (snd (snd (generate_response_with_sequential_tools searching_generator ''q'' None
                     (Some [''search'']) (Some failing_tool) 2 empty_world)))). raised x) \<and>
   length (new_model_calls empty_world
        (snd (snd (generate_response_with_sequential_tools searching_generator ''q'' None
                     (Some [''search'']) (Some failing_tool) 2 empty_world)))) = 2 \<and>
   fst (generate_response_with_sequential_tools searching_generator ''q'' None
          (Some [''search'']) (Some failing_tool) 2 empty_world)
     = Inr (final_text (Inr \<lparr>stop_reason = ''end_turn'', content = [text_block ''Final answer'']\<rparr>))"
proof -
  let ?R = "generate_response_with_sequential_tools searching_generator ''q'' None
              (Some [''search'']) (Some failing_tool) 2 empty_world"
  have run: "?R = (fst ?R, fst (snd ?R), snd (snd ?R))" by simp
  have h: "\<exists>x\<in>set (new_tool_calls empty_world (snd (snd ?R))). raised x"
    by (simp add: seq_eval fixture_defs raised_def)
  have n: "length (new_model_calls empty_world (snd (snd ?R))) = 2"
    by (simp add: seq_eval fixture_defs)
  have l: "snd (last (new_model_calls empty_world (snd (snd ?R)))) =
             Inr \<lparr>stop_reason = ''end_turn'', content = [text_block ''Final answer'']\<rparr>"
    by (simp add: seq_eval fixture_defs)
  from tool_failure_forces_final_call [OF run h] h n l show ?thesis by simp
qed

section \<open>The forced final call\<close>

text \<open>
  C5.  When the loop is left by falling through with a last response that still
  holds tool-use requests, as it is when the round budget is exhausted, exactly one
  more model call is issued.  Its request carries the accumulated transcript and the
  system content and no tool descriptors, and the method returns the text extracted
  from its response (the error string of \<open>_get_final_response\<close> when that
  call raises).
\<close>

theorem forced_final_call:
  assumes loop: "round_loop g tools tm None (initial_round_state g q h mr) w
                   = (Inr (FellThrough lr), rs1, w1)"
    and pending: "has_tool_calls lr"
    and exhausted: "max_rounds rs1 < current_round rs1"
  shows "generate_response_with_sequential_tools g q h tools tm mr w =
           (let req = \<lparr>req_model = model g, req_temperature = 0, req_max_tokens = 800,
                       req_messages = messages rs1, req_system = system_content rs1,
                       req_tools = None\<rparr>;
                mo = client g (length (model_calls w1)) req
            in (Inr (case mo of
                       Inr final_response \<Rightarrow> extract_text_response (Some final_response)
                     | Inl e \<Rightarrow> ''Error generating final response: '' @ str e),
                rs1,
                w1\<lparr>model_calls := model_calls w1 @ [(req, mo)]\<rparr>))"
  using pending
  by (simp add: seq_unfold [OF loop] final_text_def base_params_def Let_def)

theorem forced_final_call_witness:
  "fst (round_loop searching_generator (Some [''search'']) (Some echo_tool) None
          (initial_round_state searching_generator ''q'' None 1) empty_world)
     = Inr (FellThrough (Some \<lparr>stop_reason = ''tool_use'',
                content = [text_block ''Let me look that up'',
                           tool_use_block ''t1'' ''search'' [(''query'', ''x'')]]\<rparr>)) \<and>
   fst (generate_response_with_sequential_tools searching_generator ''q'' None
          (Some [''search'']) (Some echo_tool) 1 empty_world) = Inr ''Final answer'' \<and>
   length (model_calls (snd (snd (generate_response_with_sequential_tools searching_generator
          ''q'' None (Some [''search'']) (Some echo_tool) 1 empty_world)))) = 2"
proof -
  let ?L = "round_loop searching_generator (Some [''search'']) (Some echo_tool) None
              (initial_round_state searching_generator ''q'' None 1) empty_world"
  let ?lr = "Some \<lparr>stop_reason = ''tool_use'',
                content = [text_block ''Let me look that up'',
                           tool_use_block ''t1'' ''search'' [(''query'', ''x'')]]\<rparr>"
  have l: "fst ?L = Inr (FellThrough ?lr)"
    by (simp add: seq_eval fixture_defs)
  then have loop: "?L = (Inr (FellThrough ?lr), fst (snd ?L), snd (snd ?L))"
    by (metis prod.collapse)
  have p: "has_tool_calls ?lr"
    by (simp add: has_tool_calls_def fixture_defs)
  have x: "max_rounds (fst (snd ?L)) < current_round (fst (snd ?L))"
    by (simp add: seq_eval fixture_defs)
  have n: "length (model_calls (snd (snd ?L))) = 1"
    by (simp add: seq_eval fixture_defs)
  have c: "client searching_generator n req =
             (if req_tools req = None
              then Inr \<lparr>stop_reason = ''end_turn'', content = [text_block ''Final answer'']\<rparr>
              else Inr \<lparr>stop_reason = ''tool_use'',
                        content = [text_block ''Let me look that up'',
                                   tool_use_block ''t1'' ''search'' [(''query'', ''x'')]]\<rparr>)" for n req
    by (simp add: searching_generator_def searching_client_def)
  from forced_final_call [OF loop p x] l n show ?thesis
    by (simp add: Let_def c extract_text_response_def text_block_def)
qed

section \<open>Tool failures on the single-call path\<close>



section \<open>The transcript\<close>



end
